theory Spec2Isabelle
  imports Complex_Main "HOL-Library.Sublist" "HOL-Library.Multiset"
begin

section \<open>Data model of \<^verbatim>\<open>src/components/TaskTracker.tsx\<close>\<close>

text \<open>
  The tracker keeps two arrays in React state, \<^verbatim>\<open>tasks\<close> and \<^verbatim>\<open>logs\<close>, and a few
  scalars for the user interface. Every handler is a pure update of that state, so the
  embedding passes the state explicitly.

  Conventions of the embedding.
  \<^item> A date-time text (\<^verbatim>\<open>whenISO\<close>, \<^verbatim>\<open>createdAt\<close>, \<^verbatim>\<open>timestamp\<close>) is represented by
    its time value, the integer number of milliseconds since the epoch that
    \<^verbatim>\<open>new Date(text).getTime()\<close> yields. The tracker only stores texts produced by
    \<^verbatim>\<open>toISOString()\<close>, which raises on an invalid date, so each stored text has a time
    value.
  \<^item> Clock reads (\<^verbatim>\<open>new Date()\<close>, \<^verbatim>\<open>Date.now()\<close>), the random \<^verbatim>\<open>uid()\<close> and the answer
    of \<^verbatim>\<open>window.prompt\<close> are inputs of the environment: they are parameters.
  \<^item> JavaScript numbers are read as exact reals; the arithmetic on time values used here
    stays inside the integers that doubles represent exactly.
  \<^item> A string is a list of 8-bit code units (Latin-1).
  \<^item> Field names that several interfaces share, or that are reserved words, get a
    suffix: \<open>id_t\<close>, \<open>done_t\<close> for \<^verbatim>\<open>Task\<close>; \<open>id_l\<close>, \<open>title_l\<close>, \<open>whenISO_l\<close> for
    \<^verbatim>\<open>Log\<close>; \<open>note_o\<close> for the outcome.
\<close>

type_synonym timeval = int

record Channels =
  email :: bool
  whatsapp :: bool
  push :: bool

record Task =
  id_t :: string
  title :: string
  category :: string
  whenISO :: timeval
  estimateMin :: real
  repeat :: string
  channels :: Channels
  done_t :: bool
  createdAt :: timeval

record Outcome =
  status :: string
  lateMin :: int
  note_o :: string

record Log =
  id_l :: string
  taskId :: string
  title_l :: string
  whenISO_l :: timeval
  outcome :: Outcome
  timestamp :: timeval

text \<open>The \<^verbatim>\<open>useState\<close> cells of \<^verbatim>\<open>GlassTaskTracker\<close>.\<close>

record store =
  tasks :: "Task list"
  logs :: "Log list"
  query :: string
  filterCat :: string
  showAdd :: bool
  view :: string
  aiCardOpen :: bool

text \<open>What the user sees besides the rendered lists: \<^verbatim>\<open>window.alert\<close> and
  \<^verbatim>\<open>window.prompt\<close> dialogs, and \<^verbatim>\<open>new Notification(title, {body})\<close>.\<close>

datatype ui_event = Alert string | Prompt string | Notification string string

datatype js_error = RangeError

section \<open>Helpers\<close>

text \<open>\<^verbatim>\<open>Math.round\<close>: the nearest integer, a tie going up.\<close>

definition Math_round :: "real \<Rightarrow> int" where
  "Math_round x = \<lfloor>x + 1 / 2\<rfloor>"

text \<open>\<^verbatim>\<open>isDueSoon(whenISO, leadMinutes)\<close>; \<open>now\<close> is its clock read.\<close>

definition isDueSoon :: "timeval \<Rightarrow> timeval \<Rightarrow> int \<Rightarrow> bool" where
  "isDueSoon now whenISO' leadMinutes =
     (let diffMs = whenISO' - now
      in diffMs > 0 \<and> diffMs \<le> leadMinutes * 60 * 1000)"

text \<open>The local-time getters of \<^verbatim>\<open>Date\<close> depend on the host's time zone; they are taken
  as given.\<close>

record LocalDate =
  getFullYear :: "timeval \<Rightarrow> int"
  getMonth :: "timeval \<Rightarrow> int"
  getDate :: "timeval \<Rightarrow> int"

definition withinToday :: "LocalDate \<Rightarrow> timeval \<Rightarrow> timeval \<Rightarrow> bool" where
  "withinToday tz now d =
     (getFullYear tz d = getFullYear tz now \<and>
      getMonth tz d = getMonth tz now \<and>
      getDate tz d = getDate tz now)"

text \<open>\<^verbatim>\<open>String.prototype.toLowerCase\<close> on Latin-1 code units: A to Z and the accented
  capitals 0xC0 to 0xDE (without the multiplication sign 0xD7) move up by 32.\<close>

definition lowerChar :: "char \<Rightarrow> char" where
  "lowerChar c =
     (let n = (of_char c :: nat)
      in if (65 \<le> n \<and> n \<le> 90) \<or> (192 \<le> n \<and> n \<le> 222 \<and> n \<noteq> 215)
         then char_of (n + 32) else c)"

definition toLowerCase :: "string \<Rightarrow> string" where
  "toLowerCase s = map lowerChar s"

text \<open>\<^verbatim>\<open>s.includes(q)\<close>: does \<open>q\<close> occur in \<open>s\<close> at some position.\<close>

fun str_includes :: "string \<Rightarrow> string \<Rightarrow> bool" where
  "str_includes [] q = (q = [])"
| "str_includes (c # s) q = (prefix q (c # s) \<or> str_includes s q)"

text \<open>\<^verbatim>\<open>String.prototype.trim\<close>: the white space of Latin-1 is TAB, LF, VT, FF, CR,
  SPACE and NBSP.\<close>

definition isWhiteSpace :: "char \<Rightarrow> bool" where
  "isWhiteSpace c =
     (let n = (of_char c :: nat)
      in n = 9 \<or> n = 10 \<or> n = 11 \<or> n = 12 \<or> n = 13 \<or> n = 32 \<or> n = 160)"

definition trim :: "string \<Rightarrow> string" where
  "trim s = rev (dropWhile isWhiteSpace (rev (dropWhile isWhiteSpace s)))"

text \<open>\<^verbatim>\<open>Array.prototype.sort(cmp)\<close> is a stable sort. For a comparator that is a
  difference of keys the result is fixed by stability; it is computed here by insertion
  from the right, an element going in front of the first one it does not exceed.\<close>

fun insert_cmp :: "('a \<Rightarrow> 'a \<Rightarrow> int) \<Rightarrow> 'a \<Rightarrow> 'a list \<Rightarrow> 'a list" where
  "insert_cmp cmp x [] = [x]"
| "insert_cmp cmp x (y # ys) =
     (if cmp x y \<le> 0 then x # y # ys else y # insert_cmp cmp x ys)"

definition sort_cmp :: "('a \<Rightarrow> 'a \<Rightarrow> int) \<Rightarrow> 'a list \<Rightarrow> 'a list" where
  "sort_cmp cmp xs = foldr (insert_cmp cmp) xs []"

text \<open>Decimal text of a number, as a template literal prints it.\<close>

fun showNat :: "nat \<Rightarrow> string" where
  "showNat n =
     (if n < 10 then [char_of (48 + n)]
      else showNat (n div 10) @ [char_of (48 + n mod 10)])"

section \<open>The reminder scan\<close>

text \<open>The body of the \<^verbatim>\<open>setInterval\<close> callback. The clock reads of one tick are taken at
  one instant \<open>now\<close>.\<close>

definition upcoming :: "LocalDate \<Rightarrow> timeval \<Rightarrow> Task list \<Rightarrow> Task list" where
  "upcoming tz now ts =
     filter (\<lambda>tk. \<not> done_t tk \<and> withinToday tz now (whenISO tk) \<and> isDueSoon now (whenISO tk) 1) ts"

text \<open>\<^verbatim>\<open>notify\<close> shows a notification only when permission is granted; \<open>formatTime\<close> is
  the locale's \<^verbatim>\<open>toLocaleTimeString\<close>.\<close>

definition reminderTick ::
  "LocalDate \<Rightarrow> (timeval \<Rightarrow> string) \<Rightarrow> bool \<Rightarrow> timeval \<Rightarrow> Task list \<Rightarrow> ui_event list" where
  "reminderTick tz formatTime granted now ts =
     (if granted
      then map (\<lambda>u. Notification ''Reminder'' (title u @ '' at '' @ formatTime (whenISO u)))
             (upcoming tz now ts)
      else [])"

section \<open>The derived list\<close>

definition filtered :: "store \<Rightarrow> Task list" where
  "filtered s =
     sort_cmp (\<lambda>a b. whenISO a - whenISO b)
       (filter (\<lambda>t. str_includes (toLowerCase (title t)) (toLowerCase (query s)))
         (filter (\<lambda>t. if filterCat s = ''all'' then True else category t = filterCat s)
           (tasks s)))"

section \<open>Event handlers\<close>

definition addTask :: "Task \<Rightarrow> store \<Rightarrow> store" where
  "addTask task s = s\<lparr>tasks := tasks s @ [task], showAdd := False\<rparr>"

definition toggleDone :: "string \<Rightarrow> store \<Rightarrow> store" where
  "toggleDone i s =
     s\<lparr>tasks := map (\<lambda>t. if id_t t = i then t\<lparr>done_t := \<not> done_t t\<rparr> else t) (tasks s)\<rparr>"

definition removeTask :: "string \<Rightarrow> store \<Rightarrow> store" where
  "removeTask i s = s\<lparr>tasks := filter (\<lambda>t. id_t t \<noteq> i) (tasks s)\<rparr>"

text \<open>\<open>uid\<close> is the value of \<^verbatim>\<open>uid()\<close>, \<open>stamp\<close> the clock read of the entry.\<close>

definition logOutcome :: "string \<Rightarrow> timeval \<Rightarrow> Task \<Rightarrow> Outcome \<Rightarrow> store \<Rightarrow> store" where
  "logOutcome uid stamp task oc s =
     (let entry = \<lparr>id_l = uid, taskId = id_t task, title_l = title task,
                   whenISO_l = whenISO task, outcome = oc, timestamp = stamp\<rparr>
      in s\<lparr>logs := entry # logs s\<rparr>)"

definition lateMinOf :: "timeval \<Rightarrow> timeval \<Rightarrow> int" where
  "lateMinOf start endv = max 0 (Math_round (real_of_int (endv - start) / 60000))"

text \<open>\<^verbatim>\<open>completeTask(task)\<close>: \<open>endv\<close> is \<^verbatim>\<open>Date.now()\<close>, \<open>answer\<close> is what
  \<^verbatim>\<open>window.prompt\<close> returns if it is called (\<open>None\<close> for a dismissed dialog). The
  result carries the dialogs shown.\<close>

definition completeTask ::
  "string \<Rightarrow> timeval \<Rightarrow> timeval \<Rightarrow> string option \<Rightarrow> Task \<Rightarrow> store \<Rightarrow> store \<times> ui_event list" where
  "completeTask uid endv stamp answer task s =
     (let start = whenISO task;
          lateMin' = lateMinOf start endv;
          ask = ''You were late by ~'' @ showNat (nat lateMin') @ '' min. Why?'';
          why = (if lateMin' > 0 then answer else Some ''on-time'');
          evs = (if lateMin' > 0 then [Prompt ask] else []);
          s1 = toggleDone (id_t task) s;
          s2 = logOutcome uid stamp task
                 \<lparr>status = ''done'', lateMin = lateMin',
                  note_o = (case why of None \<Rightarrow> '''' | Some w \<Rightarrow> if w = '''' then '''' else w)\<rparr> s1
      in (s2, evs))"

text \<open>The three texts of \<^verbatim>\<open>aiSuggestion()\<close>. (The typographic apostrophe of the first
  one is outside Latin-1 and is written as an ASCII one.)\<close>

definition msgNoLogs :: string where
  "msgNoLogs = ''Log a few tasks and I'll spot patterns for you.''"

definition msgLate :: string where
  "msgLate = ''I noticed multiple late completions. Try scheduling deep-work tasks before lunch and keep water reminders every 90 min.''"

definition msgMomentum :: string where
  "msgMomentum = ''Nice momentum! Consider creating a small habit streak: 3-day run for water + 20-min walk.''"

text \<open>\<^verbatim>\<open>aiSuggestion()\<close> reads \<^verbatim>\<open>logs\<close> only.\<close>

definition aiSuggestion :: "Log list \<Rightarrow> string" where
  "aiSuggestion ls =
     (if length ls = 0 then msgNoLogs
      else let late = filter (\<lambda>l. lateMin (outcome l) > 0) ls
           in if length late \<ge> 3 then msgLate else msgMomentum)"

section \<open>The task-creation form\<close>

record form =
  f_title :: string
  f_category :: string
  f_when :: string
  f_repeat :: string
  f_estimateMin :: real
  f_email :: bool
  f_whatsapp :: bool
  f_push :: bool

text \<open>\<^verbatim>\<open>AddTaskModal.submit\<close> with \<^verbatim>\<open>onCreate = addTask\<close>. \<open>parseDate\<close> is
  \<^verbatim>\<open>new Date(when)\<close>, \<open>None\<close> for an invalid date, on which \<^verbatim>\<open>toISOString()\<close> raises
  \<^verbatim>\<open>RangeError\<close> before \<^verbatim>\<open>onCreate\<close> is reached. The estimate is the number that
  \<^verbatim>\<open>Number(e.target.value)\<close> put into the form, on which \<^verbatim>\<open>Number(estimateMin) || 0\<close>
  is the identity.\<close>

definition submit ::
  "(string \<Rightarrow> timeval option) \<Rightarrow> string \<Rightarrow> timeval \<Rightarrow> form \<Rightarrow> store
     \<Rightarrow> ui_event list \<times> (js_error + store)" where
  "submit parseDate uid now f s =
     (if trim (f_title f) = [] then ([Alert ''Please enter a title''], Inr s)
      else case parseDate (f_when f) of
             None \<Rightarrow> ([], Inl RangeError)
           | Some w \<Rightarrow>
               ([], Inr (addTask
                  \<lparr>id_t = uid, title = trim (f_title f), category = f_category f,
                   whenISO = w, estimateMin = f_estimateMin f, repeat = f_repeat f,
                   channels = \<lparr>email = f_email f, whatsapp = f_whatsapp f, push = f_push f\<rparr>,
                   done_t = False, createdAt = now\<rparr> s)))"

section \<open>Initial state and user events\<close>

text \<open>The fallback of \<^verbatim>\<open>useState\<close> when nothing is stored: two tasks, with ids \<open>u1\<close> and
  \<open>u2\<close> drawn by \<^verbatim>\<open>uid()\<close>, scheduled 15 and 60 minutes after \<open>now\<close>.\<close>

definition defaultTasks :: "string \<Rightarrow> string \<Rightarrow> timeval \<Rightarrow> Task list" where
  "defaultTasks u1 u2 now =
     [\<lparr>id_t = u1, title = ''Drink Water'', category = ''health'',
       whenISO = now + 15 * 60 * 1000, estimateMin = 1, repeat = ''daily'',
       channels = \<lparr>email = False, whatsapp = False, push = True\<rparr>,
       done_t = False, createdAt = now\<rparr>,
      \<lparr>id_t = u2, title = ''Deep Work Sprint'', category = ''work'',
       whenISO = now + 60 * 60 * 1000, estimateMin = 50, repeat = ''weekdays'',
       channels = \<lparr>email = True, whatsapp = False, push = True\<rparr>,
       done_t = False, createdAt = now\<rparr>]"

definition initialStore :: "string \<Rightarrow> string \<Rightarrow> timeval \<Rightarrow> store" where
  "initialStore u1 u2 now =
     \<lparr>tasks = defaultTasks u1 u2 now, logs = [], query = [], filterCat = ''all'',
      showAdd = False, view = ''weekly'', aiCardOpen = True\<rparr>"

text \<open>The callbacks wired into the rows and the modal: \<^verbatim>\<open>onCreate\<close> is \<^verbatim>\<open>addTask\<close>,
  \<^verbatim>\<open>onToggle\<close> is \<^verbatim>\<open>toggleDone(t.id)\<close>, \<^verbatim>\<open>onRemove\<close> is \<^verbatim>\<open>removeTask(t.id)\<close>, \<^verbatim>\<open>onDone\<close> is
  \<^verbatim>\<open>completeTask(t)\<close>. \<open>OnLog\<close> is \<^verbatim>\<open>logOutcome\<close> on its own, which the code only calls
  from \<^verbatim>\<open>completeTask\<close>. Each event carries what the environment supplies to it.\<close>

datatype action =
    OnCreate Task
  | OnToggle string
  | OnRemove string
  | OnDone string timeval timeval "string option" Task
  | OnLog string timeval Task Outcome

fun perform :: "action \<Rightarrow> store \<Rightarrow> store" where
  "perform (OnCreate task) s = addTask task s"
| "perform (OnToggle i) s = toggleDone i s"
| "perform (OnRemove i) s = removeTask i s"
| "perform (OnDone uid endv stamp answer task) s = fst (completeTask uid endv stamp answer task s)"
| "perform (OnLog uid stamp task oc) s = logOutcome uid stamp task oc s"

fun run :: "action list \<Rightarrow> store \<Rightarrow> store" where
  "run [] s = s"
| "run (a # as) s = run as (perform a s)"

section \<open>Auxiliary facts\<close>

lemma Math_round_eq_round: "Math_round x = round x"
  by (simp add: Math_round_def round_def)

text \<open>The lateness in integer arithmetic, for computing.\<close>

lemma lateMinOf_div: "lateMinOf start endv = max 0 ((endv - start + 30000) div 60000)"
proof -
  have "real_of_int (endv - start) / 60000 + 1 / 2
          = real_of_int (endv - start + 30000) / real_of_int 60000"
    by (simp add: field_simps)
  then have "\<lfloor>real_of_int (endv - start) / 60000 + 1 / 2\<rfloor> = (endv - start + 30000) div 60000"
    by (simp only: floor_divide_of_int_eq)
  then show ?thesis by (simp add: lateMinOf_def Math_round_def)
qed

lemma lateMinOf_nonneg: "0 \<le> lateMinOf start endv"
  by (simp add: lateMinOf_def)

lemma str_includes_sublist: "str_includes s q = sublist q s"
  by (induction s) (auto simp: sublist_Cons_right)

lemma insert_cmp_insort:
  "insert_cmp (\<lambda>a b. key a - key b) x ys = insort_key key x ys"
  by (induction ys) auto

lemma sort_cmp_sort_key: "sort_cmp (\<lambda>a b. key a - key b) xs = sort_key key xs"
  by (induction xs) (simp_all add: sort_cmp_def insert_cmp_insort)

lemma filter_neg_mset_split:
  "mset xs = mset (filter (\<lambda>t. \<not> P t) xs) + mset (filter P xs)"
  by (induction xs) auto

lemma trim_Nil_iff: "trim t = [] \<longleftrightarrow> (\<forall>c \<in> set t. isWhiteSpace c)"
proof
  assume "trim t = []"
  then have "dropWhile isWhiteSpace (rev (dropWhile isWhiteSpace t)) = []"
    by (simp add: trim_def)
  then have a: "\<forall>c \<in> set (dropWhile isWhiteSpace t). isWhiteSpace c"
    by simp
  have "dropWhile isWhiteSpace t = []"
  proof (cases "dropWhile isWhiteSpace t")
    case (Cons x xs)
    then have "\<not> isWhiteSpace x" using hd_dropWhile [of isWhiteSpace t] by simp
    with a Cons show ?thesis by simp
  qed simp
  then show "\<forall>c \<in> set t. isWhiteSpace c" by simp
next
  assume "\<forall>c \<in> set t. isWhiteSpace c"
  then have d: "dropWhile isWhiteSpace t = []" by simp
  show "trim t = []" unfolding trim_def d by simp
qed

subsection \<open>What each handler does to the two lists\<close>

lemma logs_addTask: "logs (addTask t s) = logs s"
  by (simp add: addTask_def)

lemma logs_toggleDone: "logs (toggleDone i s) = logs s"
  by (simp add: toggleDone_def)

lemma logs_removeTask: "logs (removeTask i s) = logs s"
  by (simp add: removeTask_def)

lemma logs_logOutcome:
  "logs (logOutcome uid stamp task oc s) =
     \<lparr>id_l = uid, taskId = id_t task, title_l = title task, whenISO_l = whenISO task,
      outcome = oc, timestamp = stamp\<rparr> # logs s"
  by (simp add: logOutcome_def)

lemma tasks_logOutcome: "tasks (logOutcome uid stamp task oc s) = tasks s"
  by (simp add: logOutcome_def)

lemma ids_toggleDone: "map id_t (tasks (toggleDone i s)) = map id_t (tasks s)"
  by (simp add: toggleDone_def comp_def if_distrib [of id_t] cong: if_cong)

lemma tasks_completeTask:
  "tasks (fst (completeTask uid endv stamp answer task s)) = tasks (toggleDone (id_t task) s)"
  by (simp add: completeTask_def Let_def logOutcome_def)

lemma logs_completeTask:
  "\<exists>e. logs (fst (completeTask uid endv stamp answer task s)) = e # logs s"
  by (simp add: completeTask_def Let_def logs_logOutcome logs_toggleDone)

lemma logs_submit:
  "snd (submit parseDate uid now f s) = Inr s' \<Longrightarrow> logs s' = logs s"
  by (auto simp: submit_def logs_addTask split: if_splits option.splits)

lemma suffix_perform: "suffix (logs s) (logs (perform a s))"
proof (cases a)
  case (OnDone uid endv stamp answer task)
  then show ?thesis using logs_completeTask [of uid endv stamp answer task s]
    by (auto simp: suffix_def)
qed (simp_all add: logs_addTask logs_toggleDone logs_removeTask logs_logOutcome suffix_def)

lemma suffix_run: "suffix (logs s) (logs (run as s))"
proof (induction as arbitrary: s)
  case Nil
  show ?case by simp
next
  case (Cons a as)
  have "suffix (logs s) (logs (perform a s))" by (rule suffix_perform)
  also have "suffix (logs (perform a s)) (logs (run as (perform a s)))" by (rule Cons.IH)
  finally show ?case by simp
qed

text \<open>The whole effect of \<open>completeTask\<close> on the two lists: every task with the id of the
  argument has its flag inverted, and one entry goes in front of the log.\<close>

lemma completeTask_effect:
  "tasks (fst (completeTask uid endv stamp answer task s)) =
     map (\<lambda>t. if id_t t = id_t task then t\<lparr>done_t := \<not> done_t t\<rparr> else t) (tasks s) \<and>
   logs (fst (completeTask uid endv stamp answer task s)) =
     \<lparr>id_l = uid, taskId = id_t task, title_l = title task, whenISO_l = whenISO task,
      outcome = \<lparr>status = ''done'',
                 lateMin = max 0 (round (real_of_int (endv - whenISO task) / 60000)),
                 note_o = (if lateMinOf (whenISO task) endv > 0
                           then (case answer of None \<Rightarrow> [] | Some w \<Rightarrow> w) else ''on-time'')\<rparr>,
      timestamp = stamp\<rparr> # logs s"
  by (simp add: completeTask_def Let_def logOutcome_def toggleDone_def lateMinOf_def
      Math_round_eq_round split: option.splits)

text \<open>On a task of the list that is still open, the flag becomes true.\<close>

lemma completeTask_marks_open_task:
  assumes "k < length (tasks s)" and "\<not> done_t (tasks s ! k)"
  shows "done_t (tasks (fst (completeTask uid endv stamp answer (tasks s ! k) s)) ! k)"
  using assms by (simp add: completeTask_effect)

text \<open>Entries written by \<open>completeTask\<close> never carry a negative lateness.\<close>

lemma lateMin_nonneg_perform:
  assumes "\<forall>l \<in> set (logs s). 0 \<le> lateMin (outcome l)"
    and "\<forall>uid stamp task oc. a \<noteq> OnLog uid stamp task oc"
  shows "\<forall>l \<in> set (logs (perform a s)). 0 \<le> lateMin (outcome l)"
proof (cases a)
  case (OnDone uid endv stamp answer task)
  then show ?thesis using assms(1)
    by (simp add: completeTask_def Let_def logOutcome_def toggleDone_def lateMinOf_nonneg)
next
  case (OnLog uid stamp task oc)
  with assms(2) show ?thesis by simp
qed (use assms(1) in \<open>simp_all add: logs_addTask logs_toggleDone logs_removeTask\<close>)

section \<open>Completion\<close>

text \<open>
  C1. Marking a task of the list complete should set its completion flag to true and
  put exactly one new entry with status \<open>done\<close> and lateness
  \<open>max 0 (round ((completionTime - scheduledTime) / 60000))\<close> into the log.
  \<open>completeTask\<close> does add that one entry (\<open>completeTask_effect\<close>), and it sets the flag
  of a task that is still open (\<open>completeTask_marks_open_task\<close>), but it calls
  \<open>toggleDone\<close>: the \<^verbatim>\<open>Mark Done\<close> button is shown on every row, and on a task that is
  already done the flag goes back to false while the log gains another \<open>done\<close> entry.
  Below, the first default task is completed twice, 5 and 6 minutes after its scheduled
  time.
\<close>

theorem completeTask_twice_unmarks:
  "hd (defaultTasks ''k3x9q2ab'' ''z81mmp0c'' 0)
     \<in> set (tasks (initialStore ''k3x9q2ab'' ''z81mmp0c'' 0)) \<and>
   map done_t (tasks (fst (completeTask ''l1'' 1200000 1200001 None
        (hd (defaultTasks ''k3x9q2ab'' ''z81mmp0c'' 0))
        (initialStore ''k3x9q2ab'' ''z81mmp0c'' 0)))) = [True, False] \<and>
   (hd (defaultTasks ''k3x9q2ab'' ''z81mmp0c'' 0))\<lparr>done_t := True\<rparr> \<in>
     set (tasks (fst (completeTask ''l1'' 1200000 1200001 None
        (hd (defaultTasks ''k3x9q2ab'' ''z81mmp0c'' 0))
        (initialStore ''k3x9q2ab'' ''z81mmp0c'' 0)))) \<and>
   map done_t (tasks (fst (completeTask ''l2'' 1260000 1260001 None
        ((hd (defaultTasks ''k3x9q2ab'' ''z81mmp0c'' 0))\<lparr>done_t := True\<rparr>)
        (fst (completeTask ''l1'' 1200000 1200001 None
           (hd (defaultTasks ''k3x9q2ab'' ''z81mmp0c'' 0))
           (initialStore ''k3x9q2ab'' ''z81mmp0c'' 0)))))) = [False, False] \<and>
   map (\<lambda>l. (status (outcome l), lateMin (outcome l)))
     (logs (fst (completeTask ''l2'' 1260000 1260001 None
        ((hd (defaultTasks ''k3x9q2ab'' ''z81mmp0c'' 0))\<lparr>done_t := True\<rparr>)
        (fst (completeTask ''l1'' 1200000 1200001 None
           (hd (defaultTasks ''k3x9q2ab'' ''z81mmp0c'' 0))
           (initialStore ''k3x9q2ab'' ''z81mmp0c'' 0)))))) = [(''done'', 6), (''done'', 5)]"
  by (simp add: completeTask_def Let_def logOutcome_def toggleDone_def lateMinOf_div
      initialStore_def defaultTasks_def)

text \<open>
  C5. In the completion flow, a lateness of 0 records the fixed note \<open>on-time\<close> and
  shows no dialog; a lateness above 0 shows one prompt, and a dismissed prompt or an
  empty answer records the empty note (any other answer is recorded as given).
\<close>

theorem completion_note:
  "\<exists>e. logs (fst (completeTask uid endv stamp answer task s)) = e # logs s \<and>
       lateMin (outcome e) = lateMinOf (whenISO task) endv \<and>
       (lateMinOf (whenISO task) endv = 0 \<longrightarrow>
          note_o (outcome e) = ''on-time'' \<and>
          snd (completeTask uid endv stamp answer task s) = []) \<and>
       (lateMinOf (whenISO task) endv > 0 \<longrightarrow>
          snd (completeTask uid endv stamp answer task s) =
            [Prompt (''You were late by ~'' @ showNat (nat (lateMinOf (whenISO task) endv))
                       @ '' min. Why?'')] \<and>
          (answer = None \<or> answer = Some [] \<longrightarrow> note_o (outcome e) = []) \<and>
          (\<forall>w. answer = Some w \<longrightarrow> note_o (outcome e) = w))"
  by (auto simp: completeTask_def Let_def logOutcome_def toggleDone_def)

text \<open>The scenario of the specification: \<open>Drink Water\<close> completed 5 minutes late with
  the prompt dismissed, and completed within half a minute of its time.\<close>

theorem completion_note_witness:
  "lateMinOf (whenISO (hd (defaultTasks ''a'' ''b'' 0))) 1200000 = 5 \<and>
   (\<exists>e. logs (fst (completeTask ''l'' 1200000 1200001 None (hd (defaultTasks ''a'' ''b'' 0))
            (initialStore ''a'' ''b'' 0))) = [e] \<and>
        lateMin (outcome e) = 5 \<and> note_o (outcome e) = []) \<and>
   lateMinOf (whenISO (hd (defaultTasks ''a'' ''b'' 0))) 929999 = 0 \<and>
   (\<exists>e. logs (fst (completeTask ''l'' 929999 930000 None (hd (defaultTasks ''a'' ''b'' 0))
            (initialStore ''a'' ''b'' 0))) = [e] \<and>
        lateMin (outcome e) = 0 \<and> note_o (outcome e) = ''on-time'') \<and>
   snd (completeTask ''l'' 929999 930000 None (hd (defaultTasks ''a'' ''b'' 0))
            (initialStore ''a'' ''b'' 0)) = []"
proof -
  have l: "lateMinOf (whenISO (hd (defaultTasks ''a'' ''b'' 0))) 1200000 = 5"
    "lateMinOf (whenISO (hd (defaultTasks ''a'' ''b'' 0))) 929999 = 0"
    by (simp_all add: lateMinOf_div defaultTasks_def)
  have e: "logs (initialStore ''a'' ''b'' 0) = []" by (simp add: initialStore_def)
  show ?thesis
    using completion_note [of "''l''" 1200000 1200001 None "hd (defaultTasks ''a'' ''b'' 0)"
        "initialStore ''a'' ''b'' 0"]
      completion_note [of "''l''" 929999 930000 None "hd (defaultTasks ''a'' ''b'' 0)"
        "initialStore ''a'' ''b'' 0"]
    by (auto simp: l e)
qed

section \<open>The reminder scan\<close>

text \<open>
  C2. On a tick at time \<open>now\<close>, a task is in the match set of the scan exactly when it is
  in the list, its completion flag is false, its scheduled time has the year, month and
  day of month of \<open>now\<close> in local time, and its scheduled time is strictly after \<open>now\<close>
  and at most one minute (60000 ms) later. In particular an open task of the same day
  scheduled 30 seconds ahead is matched, and no task scheduled 2 minutes ahead is.
\<close>

theorem reminder_match_set:
  "(tk \<in> set (upcoming tz now ts) \<longleftrightarrow>
      tk \<in> set ts \<and> \<not> done_t tk \<and>
      (getFullYear tz (whenISO tk), getMonth tz (whenISO tk), getDate tz (whenISO tk))
        = (getFullYear tz now, getMonth tz now, getDate tz now) \<and>
      now < whenISO tk \<and> whenISO tk \<le> now + 60000) \<and>
   (tk \<in> set ts \<and> \<not> done_t tk \<and> withinToday tz now (whenISO tk) \<and> whenISO tk = now + 30000
      \<longrightarrow> tk \<in> set (upcoming tz now ts)) \<and>
   (whenISO tk = now + 120000 \<longrightarrow> tk \<notin> set (upcoming tz now ts))"
  by (auto simp: upcoming_def withinToday_def isDueSoon_def Let_def)

text \<open>The first default task is due at 900000 ms; the getters below are those of UTC
  during January 1970.\<close>

theorem reminder_match_set_witness:
  "hd (defaultTasks ''a'' ''b'' 0) \<in> set (defaultTasks ''a'' ''b'' 0) \<and>
   \<not> done_t (hd (defaultTasks ''a'' ''b'' 0)) \<and>
   withinToday \<lparr>getFullYear = \<lambda>t. 1970, getMonth = \<lambda>t. 0, getDate = \<lambda>t. 1 + t div 86400000\<rparr>
     870000 (whenISO (hd (defaultTasks ''a'' ''b'' 0))) \<and>
   whenISO (hd (defaultTasks ''a'' ''b'' 0)) = 870000 + 30000 \<and>
   hd (defaultTasks ''a'' ''b'' 0) \<in> set (upcoming
     \<lparr>getFullYear = \<lambda>t. 1970, getMonth = \<lambda>t. 0, getDate = \<lambda>t. 1 + t div 86400000\<rparr>
     870000 (defaultTasks ''a'' ''b'' 0)) \<and>
   whenISO (hd (defaultTasks ''a'' ''b'' 0)) = 780000 + 120000 \<and>
   hd (defaultTasks ''a'' ''b'' 0) \<notin> set (upcoming
     \<lparr>getFullYear = \<lambda>t. 1970, getMonth = \<lambda>t. 0, getDate = \<lambda>t. 1 + t div 86400000\<rparr>
     780000 (defaultTasks ''a'' ''b'' 0))"
  using reminder_match_set [of "hd (defaultTasks ''a'' ''b'' 0)"
      "\<lparr>getFullYear = \<lambda>t. 1970, getMonth = \<lambda>t. 0, getDate = \<lambda>t. 1 + t div 86400000\<rparr>"
      870000 "defaultTasks ''a'' ''b'' 0"]
    reminder_match_set [of "hd (defaultTasks ''a'' ''b'' 0)"
      "\<lparr>getFullYear = \<lambda>t. 1970, getMonth = \<lambda>t. 0, getDate = \<lambda>t. 1 + t div 86400000\<rparr>"
      780000 "defaultTasks ''a'' ''b'' 0"]
  by (simp add: defaultTasks_def withinToday_def)

section \<open>The derived list\<close>

text \<open>
  C3. For every task list, category filter and search text, the visible list is the
  task list filtered by exact category match (every task passes under the filter
  \<open>all\<close>), then by occurrence of the lower-cased search text in the lower-cased title,
  then stably sorted by ascending scheduled time. With the filter \<open>all\<close> and an empty
  search it holds exactly the tasks of the list, also right after a task is added or
  the tasks of an id are removed.
\<close>

theorem filtered_derivation:
  "filtered s =
     sort_key whenISO
       (filter (\<lambda>t. sublist (toLowerCase (query s)) (toLowerCase (title t)))
         (filter (\<lambda>t. filterCat s = ''all'' \<or> category t = filterCat s) (tasks s))) \<and>
   sorted (map whenISO (filtered s)) \<and>
   (filterCat s = ''all'' \<and> query s = [] \<longrightarrow>
      filtered s = sort_key whenISO (tasks s) \<and>
      mset (filtered s) = mset (tasks s) \<and> set (filtered s) = set (tasks s) \<and>
      set (filtered (addTask task s)) = insert task (set (tasks s)) \<and>
      set (filtered (removeTask i s)) = {t \<in> set (tasks s). id_t t \<noteq> i})"
proof -
  have c: "(\<lambda>t. if filterCat s = ''all'' then True else category t = filterCat s)
            = (\<lambda>t. filterCat s = ''all'' \<or> category t = filterCat s)" for s :: store
    by auto
  have e: "filtered s =
     sort_key whenISO
       (filter (\<lambda>t. sublist (toLowerCase (query s)) (toLowerCase (title t)))
         (filter (\<lambda>t. filterCat s = ''all'' \<or> category t = filterCat s) (tasks s)))"
    for s :: store
    by (simp add: filtered_def sort_cmp_sort_key str_includes_sublist c)
  have o: "sorted (map whenISO (filtered s))"
    unfolding e by (rule sorted_sort_key)
  have u: "filtered s = sort_key whenISO (tasks s)"
    if "filterCat s = ''all''" "query s = []" for s :: store
    unfolding e using that by (simp add: toLowerCase_def)
  have a: "set (filtered (addTask task s)) = insert task (set (tasks s))"
    if "filterCat s = ''all''" "query s = []"
    using that u [of "addTask task s"] by (simp add: addTask_def)
  have r: "set (filtered (removeTask i s)) = {t \<in> set (tasks s). id_t t \<noteq> i}"
    if "filterCat s = ''all''" "query s = []"
    using that u [of "removeTask i s"] by (simp add: removeTask_def)
  show ?thesis using e [of s] o u [of s] a r by simp
qed

text \<open>The default store unfiltered, searched for \<open>WATER\<close>, and filtered by the
  category \<open>work\<close>.\<close>

theorem filtered_derivation_witness:
  "filterCat (initialStore ''a'' ''b'' 0) = ''all'' \<and> query (initialStore ''a'' ''b'' 0) = [] \<and>
   set (filtered (initialStore ''a'' ''b'' 0)) = set (tasks (initialStore ''a'' ''b'' 0)) \<and>
   map title (filtered (initialStore ''a'' ''b'' 0)) = [''Drink Water'', ''Deep Work Sprint''] \<and>
   map title (filtered ((initialStore ''a'' ''b'' 0)\<lparr>query := ''WATER''\<rparr>)) = [''Drink Water''] \<and>
   map title (filtered ((initialStore ''a'' ''b'' 0)\<lparr>filterCat := ''work''\<rparr>))
     = [''Deep Work Sprint'']"
proof -
  have m: "filterCat (initialStore ''a'' ''b'' 0) = ''all'' \<and> query (initialStore ''a'' ''b'' 0) = [] \<and>
     set (filtered (initialStore ''a'' ''b'' 0)) = set (tasks (initialStore ''a'' ''b'' 0)) \<and>
     map title (filtered (initialStore ''a'' ''b'' 0)) = [''Drink Water'', ''Deep Work Sprint'']"
    using filtered_derivation [of "initialStore ''a'' ''b'' 0"]
    by (simp add: initialStore_def defaultTasks_def toLowerCase_def)
  have q: "map title (filtered ((initialStore ''a'' ''b'' 0)\<lparr>query := ''WATER''\<rparr>))
             = [''Drink Water'']"
    by code_simp
  have c: "map title (filtered ((initialStore ''a'' ''b'' 0)\<lparr>filterCat := ''work''\<rparr>))
             = [''Deep Work Sprint'']"
    by code_simp
  from m q c show ?thesis by blast
qed

section \<open>Identifiers\<close>

text \<open>
  C4 (as the code has it). \<open>toggleDone\<close>, \<open>removeTask\<close>, \<open>logOutcome\<close> and
  \<open>completeTask\<close> keep the task ids of a list pairwise different. \<open>addTask\<close> keeps
  them so exactly when the id of the new task is not yet in the list; nothing in the
  code checks this, the id being the random text of \<^verbatim>\<open>uid()\<close>.
\<close>

theorem id_uniqueness_preservation:
  assumes "distinct (map id_t (tasks s))"
  shows "distinct (map id_t (tasks (toggleDone i s))) \<and>
         distinct (map id_t (tasks (removeTask i s))) \<and>
         distinct (map id_t (tasks (logOutcome uid stamp task oc s))) \<and>
         distinct (map id_t (tasks (fst (completeTask uid endv stamp answer task s)))) \<and>
         (distinct (map id_t (tasks (addTask t s))) \<longleftrightarrow> id_t t \<notin> id_t ` set (tasks s))"
proof -
  have "distinct (map id_t (tasks (removeTask i s)))"
    using assms by (simp add: removeTask_def distinct_map_filter)
  moreover have "distinct (map id_t (tasks (addTask t s))) \<longleftrightarrow> id_t t \<notin> id_t ` set (tasks s)"
    using assms by (simp add: addTask_def)
  ultimately show ?thesis
    using assms by (simp add: ids_toggleDone tasks_completeTask logOutcome_def)
qed

theorem id_uniqueness_preservation_witness:
  "distinct (map id_t (tasks (initialStore ''a'' ''b'' 0))) \<and>
   distinct (map id_t (tasks (toggleDone ''a'' (initialStore ''a'' ''b'' 0)))) \<and>
   distinct (map id_t (tasks (removeTask ''a'' (initialStore ''a'' ''b'' 0)))) \<and>
   distinct (map id_t (tasks (addTask ((hd (defaultTasks ''a'' ''b'' 0))\<lparr>id_t := ''c''\<rparr>)
      (initialStore ''a'' ''b'' 0)))) \<and>
   \<not> distinct (map id_t (tasks (addTask ((hd (defaultTasks ''a'' ''b'' 0))\<lparr>id_t := ''b''\<rparr>)
      (initialStore ''a'' ''b'' 0))))"
  using id_uniqueness_preservation [where s = "initialStore ''a'' ''b'' 0" and i = "''a''"
      and t = "(hd (defaultTasks ''a'' ''b'' 0))\<lparr>id_t := ''c''\<rparr>"]
    id_uniqueness_preservation [where s = "initialStore ''a'' ''b'' 0" and i = "''a''"
      and t = "(hd (defaultTasks ''a'' ''b'' 0))\<lparr>id_t := ''b''\<rparr>"]
  by (simp add: initialStore_def defaultTasks_def)

text \<open>
  C4 as stated fails for \<open>addTask\<close>: the default list has two different ids, and adding
  a task whose \<^verbatim>\<open>uid()\<close> came out as the id of the first one gives a list with that id
  twice.
\<close>

theorem addTask_duplicate_id:
  "distinct (map id_t (tasks (initialStore ''k3x9q2ab'' ''z81mmp0c'' 0))) \<and>
   \<not> distinct (map id_t (tasks (addTask
        \<lparr>id_t = ''k3x9q2ab'', title = ''Walk'', category = ''habit'', whenISO = 60000,
         estimateMin = 15, repeat = ''none'',
         channels = \<lparr>email = False, whatsapp = False, push = True\<rparr>,
         done_t = False, createdAt = 1000\<rparr>
        (initialStore ''k3x9q2ab'' ''z81mmp0c'' 0))))"
  by (simp add: initialStore_def defaultTasks_def addTask_def)

section \<open>Removing and toggling\<close>

text \<open>
  C6. Removing the tasks of an id leaves the task list without exactly the tasks of that
  id: the rest stays, in its order and with its multiplicity, no task of that id stays,
  and the list gets shorter when the id was present. The log list, and every other cell
  of the store, is unchanged.
\<close>

theorem removeTask_frame:
  "tasks (removeTask i s) = filter (\<lambda>t. id_t t \<noteq> i) (tasks s) \<and>
   mset (tasks s) = mset (tasks (removeTask i s)) + mset (filter (\<lambda>t. id_t t = i) (tasks s)) \<and>
   subseq (tasks (removeTask i s)) (tasks s) \<and>
   (\<forall>t \<in> set (tasks (removeTask i s)). id_t t \<noteq> i) \<and>
   (i \<in> id_t ` set (tasks s) \<longrightarrow> length (tasks (removeTask i s)) < length (tasks s)) \<and>
   logs (removeTask i s) = logs s \<and>
   (removeTask i s)\<lparr>tasks := tasks s\<rparr> = s"
proof -
  have t: "tasks (removeTask i s) = filter (\<lambda>t. id_t t \<noteq> i) (tasks s)"
    by (simp add: removeTask_def)
  have m: "mset (tasks s) = mset (tasks (removeTask i s)) + mset (filter (\<lambda>t. id_t t = i) (tasks s))"
    unfolding t using filter_neg_mset_split [of "tasks s" "\<lambda>t. id_t t = i"] by simp
  have l: "i \<in> id_t ` set (tasks s) \<longrightarrow> length (tasks (removeTask i s)) < length (tasks s)"
    unfolding t by (auto intro!: length_filter_less)
  have r: "(removeTask i s)\<lparr>tasks := tasks s\<rparr> = s" "logs (removeTask i s) = logs s"
    by (simp_all add: removeTask_def)
  show ?thesis using t m l r by simp
qed

theorem removeTask_frame_witness:
  "''a'' \<in> id_t ` set (tasks (initialStore ''a'' ''b'' 0)) \<and>
   length (tasks (removeTask ''a'' (initialStore ''a'' ''b'' 0)))
     < length (tasks (initialStore ''a'' ''b'' 0)) \<and>
   map id_t (tasks (removeTask ''a'' (initialStore ''a'' ''b'' 0))) = [''b''] \<and>
   ''a'' \<notin> id_t ` set (tasks (removeTask ''a'' (initialStore ''a'' ''b'' 0))) \<and>
   logs (removeTask ''a'' (initialStore ''a'' ''b'' 0)) = logs (initialStore ''a'' ''b'' 0)"
  using removeTask_frame [of "''a''" "initialStore ''a'' ''b'' 0"]
  by (auto simp: initialStore_def defaultTasks_def)

text \<open>
  C10. \<open>toggleDone\<close> keeps the length and order of the task list; at every position the
  task differs from the old one in its completion flag at most, and the flag is inverted
  exactly where the id matches. When no task has the id the list is unchanged. No other
  cell of the store changes.
\<close>

theorem toggleDone_frame:
  "length (tasks (toggleDone i s)) = length (tasks s) \<and>
   (\<forall>k < length (tasks s).
      (tasks (toggleDone i s) ! k)\<lparr>done_t := done_t (tasks s ! k)\<rparr> = tasks s ! k \<and>
      done_t (tasks (toggleDone i s) ! k) =
        (if id_t (tasks s ! k) = i then \<not> done_t (tasks s ! k) else done_t (tasks s ! k))) \<and>
   ((\<forall>t \<in> set (tasks s). id_t t \<noteq> i) \<longrightarrow> tasks (toggleDone i s) = tasks s) \<and>
   (toggleDone i s)\<lparr>tasks := tasks s\<rparr> = s"
  by (auto simp: toggleDone_def map_idI)

theorem toggleDone_frame_witness:
  "0 < length (tasks (initialStore ''a'' ''b'' 0)) \<and>
   map done_t (tasks (toggleDone ''a'' (initialStore ''a'' ''b'' 0))) = [True, False] \<and>
   (tasks (toggleDone ''a'' (initialStore ''a'' ''b'' 0)) ! 0)\<lparr>done_t := False\<rparr>
     = tasks (initialStore ''a'' ''b'' 0) ! 0 \<and>
   ''c'' \<notin> id_t ` set (tasks (initialStore ''a'' ''b'' 0)) \<and>
   tasks (toggleDone ''c'' (initialStore ''a'' ''b'' 0)) = tasks (initialStore ''a'' ''b'' 0)"
proof -
  let ?s = "initialStore ''a'' ''b'' 0"
  have n: "0 < length (tasks ?s)" and f: "done_t (tasks ?s ! 0) = False"
    and h: "\<forall>t \<in> set (tasks ?s). id_t t \<noteq> ''c''"
    by (simp_all add: initialStore_def defaultTasks_def)
  have d: "map done_t (tasks (toggleDone ''a'' ?s)) = [True, False]"
    by (simp add: toggleDone_def initialStore_def defaultTasks_def)
  have k: "(tasks (toggleDone ''a'' ?s) ! 0)\<lparr>done_t := done_t (tasks ?s ! 0)\<rparr> = tasks ?s ! 0"
    using toggleDone_frame [of "''a''" ?s] n by blast
  have c: "tasks (toggleDone ''c'' ?s) = tasks ?s"
    using toggleDone_frame [of "''c''" ?s] h by blast
  show ?thesis using n h d c k [unfolded f] by auto
qed

section \<open>The log\<close>

text \<open>
  C7. \<open>logOutcome\<close> puts the new entry at the head of the log list and keeps every
  earlier entry behind it, unchanged and in order; so with a clock that does not run
  backwards the list stays ordered most recent first. No handler edits or deletes an
  entry: after any handler, and after any sequence of them, the old log is a suffix of
  the new one, and a submitted form leaves the log as it is.
\<close>

theorem logs_prepend_only:
  "logs (logOutcome uid stamp task oc s) =
     \<lparr>id_l = uid, taskId = id_t task, title_l = title task, whenISO_l = whenISO task,
      outcome = oc, timestamp = stamp\<rparr> # logs s \<and>
   ((\<forall>l \<in> set (logs s). timestamp l \<le> stamp) \<and> sorted_wrt (\<ge>) (map timestamp (logs s))
      \<longrightarrow> sorted_wrt (\<ge>) (map timestamp (logs (logOutcome uid stamp task oc s)))) \<and>
   suffix (logs s) (logs (perform a s)) \<and>
   suffix (logs s) (logs (run as s)) \<and>
   (\<forall>s'. snd (submit parseDate uid' now f s) = Inr s' \<longrightarrow> logs s' = logs s)"
  using suffix_perform [of s a] suffix_run [of s as] logs_submit [of parseDate uid' now f s]
  by (auto simp: logs_logOutcome)

theorem logs_prepend_only_witness:
  "list_all (\<lambda>l. timestamp l \<le> 9)
     (logs (logOutcome ''l1'' 5 (hd (defaultTasks ''a'' ''b'' 0))
        \<lparr>status = ''done'', lateMin = 0, note_o = ''on-time''\<rparr> (initialStore ''a'' ''b'' 0))) \<and>
   sorted_wrt (\<ge>) (map timestamp (logs (logOutcome ''l1'' 5 (hd (defaultTasks ''a'' ''b'' 0))
        \<lparr>status = ''done'', lateMin = 0, note_o = ''on-time''\<rparr> (initialStore ''a'' ''b'' 0)))) \<and>
   sorted_wrt (\<ge>) (map timestamp (logs (logOutcome ''l2'' 9 (hd (defaultTasks ''a'' ''b'' 0))
        \<lparr>status = ''done'', lateMin = 0, note_o = ''on-time''\<rparr>
        (logOutcome ''l1'' 5 (hd (defaultTasks ''a'' ''b'' 0))
          \<lparr>status = ''done'', lateMin = 0, note_o = ''on-time''\<rparr> (initialStore ''a'' ''b'' 0))))) \<and>
   map id_l (logs (logOutcome ''l2'' 9 (hd (defaultTasks ''a'' ''b'' 0))
        \<lparr>status = ''done'', lateMin = 0, note_o = ''on-time''\<rparr>
        (logOutcome ''l1'' 5 (hd (defaultTasks ''a'' ''b'' 0))
          \<lparr>status = ''done'', lateMin = 0, note_o = ''on-time''\<rparr> (initialStore ''a'' ''b'' 0))))
     = [''l2'', ''l1''] \<and>
   snd (submit (\<lambda>w. Some 7) ''c'' 3
          \<lparr>f_title = ''Walk'', f_category = ''habit'', f_when = ''1970-01-01T00:00'',
           f_repeat = ''none'', f_estimateMin = 15, f_email = False, f_whatsapp = False,
           f_push = True\<rparr>
          (logOutcome ''l1'' 5 (hd (defaultTasks ''a'' ''b'' 0))
            \<lparr>status = ''done'', lateMin = 0, note_o = ''on-time''\<rparr> (initialStore ''a'' ''b'' 0)))
     = Inr (addTask
          \<lparr>id_t = ''c'', title = ''Walk'', category = ''habit'', whenISO = 7, estimateMin = 15,
           repeat = ''none'', channels = \<lparr>email = False, whatsapp = False, push = True\<rparr>,
           done_t = False, createdAt = 3\<rparr>
          (logOutcome ''l1'' 5 (hd (defaultTasks ''a'' ''b'' 0))
            \<lparr>status = ''done'', lateMin = 0, note_o = ''on-time''\<rparr> (initialStore ''a'' ''b'' 0))) \<and>
   map id_l (logs (addTask
          \<lparr>id_t = ''c'', title = ''Walk'', category = ''habit'', whenISO = 7, estimateMin = 15,
           repeat = ''none'', channels = \<lparr>email = False, whatsapp = False, push = True\<rparr>,
           done_t = False, createdAt = 3\<rparr>
          (logOutcome ''l1'' 5 (hd (defaultTasks ''a'' ''b'' 0))
            \<lparr>status = ''done'', lateMin = 0, note_o = ''on-time''\<rparr> (initialStore ''a'' ''b'' 0))))
     = [''l1'']"
proof -
  have w: "trim ''Walk'' = ''Walk''"
    by (simp add: trim_def isWhiteSpace_def)
  show ?thesis
    using logs_prepend_only [where uid = "''l2''" and stamp = 9
        and task = "hd (defaultTasks ''a'' ''b'' 0)"
        and oc = "\<lparr>status = ''done'', lateMin = 0, note_o = ''on-time''\<rparr>"
        and s = "logOutcome ''l1'' 5 (hd (defaultTasks ''a'' ''b'' 0))
          \<lparr>status = ''done'', lateMin = 0, note_o = ''on-time''\<rparr> (initialStore ''a'' ''b'' 0)"
        and parseDate = "\<lambda>w. Some 7" and uid' = "''c''" and now = 3
        and f = "\<lparr>f_title = ''Walk'', f_category = ''habit'', f_when = ''1970-01-01T00:00'',
           f_repeat = ''none'', f_estimateMin = 15, f_email = False, f_whatsapp = False,
           f_push = True\<rparr>"]
    by (simp add: logOutcome_def initialStore_def submit_def w)
qed

section \<open>The task-creation form\<close>

text \<open>
  C8. Submitting the form with a title that is empty or consists of white space only
  shows the alert \<open>Please enter a title\<close> and returns with the store, and so the task
  list, unchanged: no task is created.
\<close>

theorem submit_blank_title:
  assumes "\<forall>c \<in> set (f_title f). isWhiteSpace c"
  shows "submit parseDate uid now f s = ([Alert ''Please enter a title''], Inr s)"
  using assms by (simp add: submit_def trim_Nil_iff)

theorem submit_blank_title_witness:
  "list_all isWhiteSpace '' '' \<and>
   submit (\<lambda>w. Some 7) ''c'' 3
     \<lparr>f_title = '' '', f_category = ''habit'', f_when = ''1970-01-01T00:00'',
      f_repeat = ''none'', f_estimateMin = 15, f_email = False, f_whatsapp = False,
      f_push = True\<rparr> (initialStore ''a'' ''b'' 0)
     = ([Alert ''Please enter a title''], Inr (initialStore ''a'' ''b'' 0))"
  using submit_blank_title [of
     "\<lparr>f_title = '' '', f_category = ''habit'', f_when = ''1970-01-01T00:00'',
      f_repeat = ''none'', f_estimateMin = 15, f_email = False, f_whatsapp = False,
      f_push = True\<rparr>" "\<lambda>w. Some 7" "''c''" 3 "initialStore ''a'' ''b'' 0"]
  by (simp add: isWhiteSpace_def)

section \<open>The suggestion\<close>

text \<open>
  C9. The suggestion depends on the log list only. On a log whose entries have a
  lateness of at least 0, as every entry written by \<open>completeTask\<close> has
  (\<open>lateMin_nonneg_perform\<close>), it is the generic prompt when the log is empty, the
  scheduling tip when at least 3 entries have a lateness other than 0, and the
  encouragement otherwise; the three texts differ.
\<close>

theorem aiSuggestion_thresholds:
  assumes "\<forall>l \<in> set ls. 0 \<le> lateMin (outcome l)"
  shows "aiSuggestion ls =
           (if ls = [] then msgNoLogs
            else if 3 \<le> length (filter (\<lambda>l. lateMin (outcome l) \<noteq> 0) ls) then msgLate
            else msgMomentum) \<and>
         msgNoLogs \<noteq> msgLate \<and> msgNoLogs \<noteq> msgMomentum \<and> msgLate \<noteq> msgMomentum"
proof -
  have "filter (\<lambda>l. lateMin (outcome l) > 0) ls = filter (\<lambda>l. lateMin (outcome l) \<noteq> 0) ls"
    using assms by (intro filter_cong) auto
  moreover have "msgNoLogs \<noteq> msgLate" "msgNoLogs \<noteq> msgMomentum" "msgLate \<noteq> msgMomentum"
    by (simp_all add: msgNoLogs_def msgLate_def msgMomentum_def)
  ultimately show ?thesis by (simp add: aiSuggestion_def Let_def)
qed

text \<open>Three late completions from the initial store, and the empty log.\<close>

theorem aiSuggestion_thresholds_witness:
  "list_all (\<lambda>l. 0 \<le> lateMin (outcome l))
     (logs (run [OnDone ''l3'' 1200000 1200001 None (hd (defaultTasks ''a'' ''b'' 0)),
                 OnDone ''l2'' 1200000 1200001 None (hd (defaultTasks ''a'' ''b'' 0)),
                 OnDone ''l1'' 1200000 1200001 None (hd (defaultTasks ''a'' ''b'' 0))]
                (initialStore ''a'' ''b'' 0))) \<and>
   aiSuggestion (logs (run [OnDone ''l3'' 1200000 1200001 None (hd (defaultTasks ''a'' ''b'' 0)),
                           OnDone ''l2'' 1200000 1200001 None (hd (defaultTasks ''a'' ''b'' 0)),
                           OnDone ''l1'' 1200000 1200001 None (hd (defaultTasks ''a'' ''b'' 0))]
                          (initialStore ''a'' ''b'' 0))) = msgLate \<and>
   aiSuggestion (logs (initialStore ''a'' ''b'' 0)) = msgNoLogs"
proof -
  let ?ls = "logs (run [OnDone ''l3'' 1200000 1200001 None (hd (defaultTasks ''a'' ''b'' 0)),
                        OnDone ''l2'' 1200000 1200001 None (hd (defaultTasks ''a'' ''b'' 0)),
                        OnDone ''l1'' 1200000 1200001 None (hd (defaultTasks ''a'' ''b'' 0))]
                       (initialStore ''a'' ''b'' 0))"
  have m: "map (\<lambda>l. lateMin (outcome l)) ?ls = [5, 5, 5]"
    by (simp add: completeTask_def Let_def logOutcome_def toggleDone_def lateMinOf_div
        initialStore_def defaultTasks_def)
  have h: "\<forall>l \<in> set ?ls. 0 \<le> lateMin (outcome l)"
  proof -
    have "\<forall>x \<in> set (map (\<lambda>l. lateMin (outcome l)) ?ls). 0 \<le> x" unfolding m by simp
    then show ?thesis by simp
  qed
  have c: "length (filter (\<lambda>l. lateMin (outcome l) \<noteq> 0) ?ls) = 3"
  proof -
    have "length (filter (\<lambda>l. lateMin (outcome l) \<noteq> 0) ?ls)
            = length (filter (\<lambda>x. x \<noteq> 0) (map (\<lambda>l. lateMin (outcome l)) ?ls))"
      by (simp add: filter_map comp_def)
    then show ?thesis unfolding m by simp
  qed
  have n: "?ls \<noteq> []" using m by auto
  have e: "logs (initialStore ''a'' ''b'' 0) = []" by (simp add: initialStore_def)
  show ?thesis
    using aiSuggestion_thresholds [OF h] aiSuggestion_thresholds [of "logs (initialStore ''a'' ''b'' 0)"]
      h c n e by (simp add: list_all_iff)
qed


end
